theory Spec2Isabelle
  imports Complex_Main
begin

section \<open>Numbers, errors and dictionaries\<close>

text \<open>
  The calculation engine works on Python numbers. A Python \<^verbatim>\<open>float\<close> is modelled by a
  \<^typ>\<open>real\<close>: the arithmetic is the exact one, rounding, overflow and the sign of zero are
  left out. A Python \<^verbatim>\<open>int\<close> that counts years is an \<^typ>\<open>int\<close>. Every exception
  the source can raise is a value on the left of a sum.
\<close>

datatype py_error = ZeroDivisionError | KeyError | IndexError

text \<open>Scalar division \<^verbatim>\<open>a / b\<close> of Python: a zero divisor raises.\<close>

definition py_div :: "real \<Rightarrow> real \<Rightarrow> py_error + real" where
  "py_div a b = (if b = 0 then Inl ZeroDivisionError else Inr (a / b))"

text \<open>
  \<^verbatim>\<open>b ** e\<close> for a float base and an int exponent: zero to a negative power raises.
\<close>

definition py_pow :: "real \<Rightarrow> int \<Rightarrow> py_error + real" where
  "py_pow b e = (if b = 0 \<and> e < 0 then Inl ZeroDivisionError else Inr (power_int b e))"

text \<open>
  A value of a numpy float column or of \<^verbatim>\<open>float('inf')\<close>: a finite number, an infinity
  or not-a-number.
\<close>

datatype npfloat = Fin real | PosInf | NegInf | NaN

text \<open>Division of two finite entries of a pandas column: it never raises.\<close>

definition np_div :: "real \<Rightarrow> real \<Rightarrow> npfloat" where
  "np_div a b =
     (if b \<noteq> 0 then Fin (a / b)
      else if 0 < a then PosInf
      else if a < 0 then NegInf
      else NaN)"

text \<open>A column entry times a positive finite constant.\<close>

fun np_scale :: "npfloat \<Rightarrow> real \<Rightarrow> npfloat" where
  "np_scale (Fin a) c = Fin (a * c)"
| "np_scale PosInf c = PosInf"
| "np_scale NegInf c = NegInf"
| "np_scale NaN c = NaN"

text \<open>
  A breakdown is a Python \<^verbatim>\<open>dict\<close> from names to amounts, kept in insertion order;
  \<^verbatim>\<open>d[k]\<close> raises \<^verbatim>\<open>KeyError\<close> on a missing key.
\<close>

type_synonym breakdown = "(string \<times> real) list"

definition getitem :: "breakdown \<Rightarrow> string \<Rightarrow> py_error + real" where
  "getitem d k = (case map_of d k of None \<Rightarrow> Inl KeyError | Some v \<Rightarrow> Inr v)"

text \<open>The sum of all entries of a breakdown other than the one named \<open>k\<close>.\<close>

definition sum_other_entries :: "breakdown \<Rightarrow> string \<Rightarrow> real" where
  "sum_other_entries d k = sum_list (map snd (filter (\<lambda>kv. fst kv \<noteq> k) d))"

section \<open>Financial calculations\<close>

subsection \<open>Capital and operating expenditure\<close>

definition calculate_capex :: "real \<Rightarrow> string \<Rightarrow> real \<Rightarrow> breakdown" where
  "calculate_capex digester_volume output_type chp_capacity =
     (let digester_cost_per_m3 = 500;
          digester_cost = digester_volume * digester_cost_per_m3;
          reception_cost = 0.15 * digester_cost;
          biogas_handling_cost = 0.1 * digester_cost;
          digestate_handling_cost = 0.12 * digester_cost;
          control_systems_cost = 0.08 * digester_cost;
          (output_specific_cost, output_specific_name) =
            (if output_type = ''biogas'' then
               (let biogas_output_m3h = (digester_volume * 1.5) / 8760;
                    upgrading_cost_per_m3h = 10000;
                    upgrading_cost = biogas_output_m3h * upgrading_cost_per_m3h
                in (upgrading_cost, ''Biogas Upgrading System''))
             else
               (let chp_cost_per_kw = 1500;
                    chp_cost = chp_capacity * chp_cost_per_kw
                in (chp_cost, ''CHP System'')));
          epc_cost = 0.15 * (digester_cost + reception_cost + biogas_handling_cost +
                             digestate_handling_cost + control_systems_cost +
                             output_specific_cost);
          contingency = 0.1 * (digester_cost + reception_cost + biogas_handling_cost +
                               digestate_handling_cost + control_systems_cost +
                               output_specific_cost + epc_cost);
          total_capex = digester_cost + reception_cost + biogas_handling_cost +
                        digestate_handling_cost + control_systems_cost +
                        output_specific_cost + epc_cost + contingency
      in [(''Digester System'', digester_cost),
          (''Reception and Pre-treatment'', reception_cost),
          (''Biogas Handling'', biogas_handling_cost),
          (''Digestate Handling'', digestate_handling_cost),
          (''Control Systems'', control_systems_cost),
          (output_specific_name, output_specific_cost),
          (''EPC Costs'', epc_cost),
          (''Contingency'', contingency),
          (''Total CAPEX'', total_capex)])"

text \<open>
  The operating costs read the capital breakdown twice for its total and, on the biogas
  pathway, once for the upgrading line: each read can raise \<^verbatim>\<open>KeyError\<close>.
\<close>

definition calculate_opex ::
  "real \<Rightarrow> real \<Rightarrow> string \<Rightarrow> breakdown \<Rightarrow> real \<Rightarrow> py_error + breakdown" where
  "calculate_opex total_feedstock digester_volume output_type capex chp_capacity =
     (let maintenance_percentage = 0.03 in
      case getitem capex ''Total CAPEX'' of
        Inl e \<Rightarrow> Inl e
      | Inr capex_total \<Rightarrow>
      let maintenance_cost = maintenance_percentage * capex_total;
          labor_cost = (if digester_volume < 2000 then 150000
                        else if digester_volume < 5000 then 250000
                        else 350000);
          consumables_cost_per_tonne = 2.5;
          consumables_cost = total_feedstock * consumables_cost_per_tonne;
          insurance_percentage = 0.01;
          insurance_cost = insurance_percentage * capex_total
      in
      case (if output_type = ''biogas'' then
              (case getitem capex ''Biogas Upgrading System'' of
                 Inl e \<Rightarrow> Inl e
               | Inr upgrading \<Rightarrow> Inr (0.05 * upgrading, ''Biogas Upgrading O&M''))
            else
              (let chp_operating_hours = 8000;
                   chp_output_kwh = chp_capacity * chp_operating_hours;
                   chp_maintenance_per_kwh = 0.02
               in Inr (chp_output_kwh * chp_maintenance_per_kwh, ''CHP Maintenance''))) of
        Inl e \<Rightarrow> Inl e
      | Inr (output_specific_cost, output_specific_name) \<Rightarrow>
      let utilities_cost_per_m3 = 15;
          utilities_cost = digester_volume * utilities_cost_per_m3;
          total_opex = maintenance_cost + labor_cost + consumables_cost +
                       insurance_cost + output_specific_cost + utilities_cost
      in Inr [(''Maintenance'', maintenance_cost),
              (''Labor'', labor_cost),
              (''Consumables'', consumables_cost),
              (''Insurance'', insurance_cost),
              (output_specific_name, output_specific_cost),
              (''Utilities'', utilities_cost),
              (''Total OPEX'', total_opex)])"

subsection \<open>Levelized cost of energy\<close>

text \<open>
  The loop \<^verbatim>\<open>for year in range(1, n + 1): acc += amount / ((1 + rate) ** year)\<close>, over the
  years still to come.
\<close>

fun pv_loop :: "real \<Rightarrow> real \<Rightarrow> real \<Rightarrow> int list \<Rightarrow> py_error + real" where
  "pv_loop acc amount rate [] = Inr acc"
| "pv_loop acc amount rate (year # years) =
     (case py_pow (1 + rate) year of
        Inl e \<Rightarrow> Inl e
      | Inr p \<Rightarrow>
          (case py_div amount p of
             Inl e \<Rightarrow> Inl e
           | Inr q \<Rightarrow> pv_loop (acc + q) amount rate years))"

definition calculate_lcoe ::
  "breakdown \<Rightarrow> breakdown \<Rightarrow> real \<Rightarrow> int \<Rightarrow> real \<Rightarrow> py_error + real" where
  "calculate_lcoe capex opex annual_energy_output project_lifetime discount_rate =
     (if annual_energy_output \<le> 0 then Inr 0
      else
        case getitem capex ''Total CAPEX'' of
          Inl e \<Rightarrow> Inl e
        | Inr total_capex \<Rightarrow>
        case getitem opex ''Total OPEX'' of
          Inl e \<Rightarrow> Inl e
        | Inr annual_opex \<Rightarrow>
        case pv_loop total_capex annual_opex discount_rate [1..project_lifetime] of
          Inl e \<Rightarrow> Inl e
        | Inr pv_costs \<Rightarrow>
        case pv_loop 0 annual_energy_output discount_rate [1..project_lifetime] of
          Inl e \<Rightarrow> Inl e
        | Inr pv_energy \<Rightarrow>
            if pv_energy > 0 then py_div pv_costs pv_energy else Inr 0)"

subsection \<open>Cash flows, net present value, rate of return, payback\<close>

text \<open>
  The annual debt service: the annuity of an amortizing loan when the interest rate is
  positive, the straight-line repayment otherwise. The term is an \<^verbatim>\<open>int\<close>.
\<close>

definition annual_debt_service :: "real \<Rightarrow> real \<Rightarrow> int \<Rightarrow> py_error + real" where
  "annual_debt_service debt_amount debt_interest debt_term =
     (if debt_interest > 0 then
        case py_pow (1 + debt_interest) debt_term of
          Inl e \<Rightarrow> Inl e
        | Inr growth \<Rightarrow>
        case py_pow (1 + debt_interest) debt_term of
          Inl e \<Rightarrow> Inl e
        | Inr growth' \<Rightarrow> py_div (debt_amount * debt_interest * growth) (growth' - 1)
      else py_div debt_amount (of_int debt_term))"

text \<open>The body of the loop over the years: the cash flow of one year.\<close>

definition annual_cash_flow ::
  "real \<Rightarrow> real \<Rightarrow> real \<Rightarrow> int \<Rightarrow> real \<Rightarrow> int \<Rightarrow> real" where
  "annual_cash_flow annual_revenue annual_opex debt_service debt_term tax_rate year =
     (let cf = annual_revenue;
          cf1 = cf - annual_opex;
          cf2 = (if year \<le> debt_term then cf1 - debt_service else cf1);
          taxable_income = annual_revenue - annual_opex;
          taxable_income' = (if year \<le> debt_term then taxable_income - debt_service * 0.3
                             else taxable_income);
          tax = max 0 (taxable_income' * tax_rate)
      in cf2 - tax)"

text \<open>The list \<^verbatim>\<open>cash_flows\<close>: the equity outlay of year 0, then one entry a year.\<close>

definition cash_flow_series ::
  "real \<Rightarrow> real \<Rightarrow> real \<Rightarrow> real \<Rightarrow> int \<Rightarrow> real \<Rightarrow> int \<Rightarrow> real list" where
  "cash_flow_series equity_amount annual_revenue annual_opex debt_service debt_term tax_rate
       project_lifetime =
     [- equity_amount] @
     map (annual_cash_flow annual_revenue annual_opex debt_service debt_term tax_rate)
       [1..project_lifetime]"

text \<open>
  \<^verbatim>\<open>for year, cf in enumerate(cash_flows[1:], 1): npv += cf / ((1 + rate) ** year)\<close>
\<close>

fun npv_loop :: "real \<Rightarrow> real \<Rightarrow> int \<Rightarrow> real list \<Rightarrow> py_error + real" where
  "npv_loop acc rate year [] = Inr acc"
| "npv_loop acc rate year (cf # cfs) =
     (case py_pow (1 + rate) year of
        Inl e \<Rightarrow> Inl e
      | Inr p \<Rightarrow>
          (case py_div cf p of
             Inl e \<Rightarrow> Inl e
           | Inr q \<Rightarrow> npv_loop (acc + q) rate (year + 1) cfs))"

definition npv_of :: "real list \<Rightarrow> real \<Rightarrow> py_error + real" where
  "npv_of cash_flows rate =
     (case cash_flows of
        [] \<Rightarrow> Inl IndexError
      | cf0 # rest \<Rightarrow> npv_loop cf0 rate 1 rest)"

text \<open>
  The search for the rate of return: \<open>k\<close> counts the iterations of
  \<^verbatim>\<open>for _ in range(20)\<close> still to run.
\<close>

fun irr_loop :: "real list \<Rightarrow> nat \<Rightarrow> real \<Rightarrow> real \<Rightarrow> real \<Rightarrow> py_error + real" where
  "irr_loop cash_flows 0 irr step direction = Inr irr"
| "irr_loop cash_flows (Suc k) irr step direction =
     (case npv_of cash_flows irr of
        Inl e \<Rightarrow> Inl e
      | Inr npv_at_irr \<Rightarrow>
          if \<bar>npv_at_irr\<bar> < 1 then Inr irr
          else
            (let (direction', step') =
                   (if npv_at_irr * direction < 0 then (- direction, step / 2)
                    else (direction, step))
             in irr_loop cash_flows k (irr + step' * direction') step' direction'))"

text \<open>
  The payback loop, on the pair of \<^verbatim>\<open>cumulative_cf\<close> and \<^verbatim>\<open>payback_period\<close>.
\<close>

fun payback_loop :: "real \<Rightarrow> int \<Rightarrow> int \<Rightarrow> real list \<Rightarrow> real \<times> int" where
  "payback_loop cumulative_cf payback_period year [] = (cumulative_cf, payback_period)"
| "payback_loop cumulative_cf payback_period year (cf # cfs) =
     (let cumulative_cf' = cumulative_cf + cf;
          payback_period' = (if cumulative_cf' \<ge> 0 \<and> payback_period = 0 then year
                             else payback_period)
      in payback_loop cumulative_cf' payback_period' (year + 1) cfs)"

definition payback_of :: "real list \<Rightarrow> int \<Rightarrow> py_error + int" where
  "payback_of cash_flows project_lifetime =
     (case cash_flows of
        [] \<Rightarrow> Inl IndexError
      | cf0 # rest \<Rightarrow>
          (let (cumulative_cf, payback_period) = payback_loop cf0 0 1 rest
           in if payback_period = 0 \<and> cumulative_cf < 0 then Inr (project_lifetime + 1)
              else Inr payback_period))"

record metrics =
  NPV :: real
  IRR :: real
  Payback_Period :: int
  Debt_Service_Coverage_Ratio :: npfloat
  Equity_Return :: real

definition calculate_financial_metrics ::
  "breakdown \<Rightarrow> breakdown \<Rightarrow> real \<Rightarrow> int \<Rightarrow> real \<Rightarrow> real \<Rightarrow> real \<Rightarrow> int \<Rightarrow> real \<Rightarrow>
   py_error + metrics" where
  "calculate_financial_metrics capex opex annual_revenue project_lifetime discount_rate
       debt_percentage debt_interest debt_term tax_rate =
     (case getitem capex ''Total CAPEX'' of
        Inl e \<Rightarrow> Inl e
      | Inr total_capex \<Rightarrow>
      case getitem opex ''Total OPEX'' of
        Inl e \<Rightarrow> Inl e
      | Inr annual_opex \<Rightarrow>
      let debt_amount = total_capex * debt_percentage;
          equity_amount = total_capex * (1 - debt_percentage)
      in
      case annual_debt_service debt_amount debt_interest debt_term of
        Inl e \<Rightarrow> Inl e
      | Inr debt_service \<Rightarrow>
      let cash_flows = cash_flow_series equity_amount annual_revenue annual_opex debt_service
                         debt_term tax_rate project_lifetime
      in
      case npv_of cash_flows discount_rate of
        Inl e \<Rightarrow> Inl e
      | Inr npv \<Rightarrow>
      case irr_loop cash_flows 20 0.1 0.05 1 of
        Inl e \<Rightarrow> Inl e
      | Inr irr \<Rightarrow>
      case payback_of cash_flows project_lifetime of
        Inl e \<Rightarrow> Inl e
      | Inr payback_period \<Rightarrow>
          Inr \<lparr>NPV = npv,
               IRR = irr,
               Payback_Period = payback_period,
               Debt_Service_Coverage_Ratio =
                 (if debt_service > 0 then Fin ((annual_revenue - annual_opex) / debt_service)
                  else PosInf),
               Equity_Return = irr\<rparr>)"

section \<open>Feedstock data\<close>

text \<open>
  One row of the feedstock table. The columns \<^verbatim>\<open>ts\<close>, \<^verbatim>\<open>vs\<close> and \<^verbatim>\<open>ch4\<close> are
  percentages; \<^verbatim>\<open>tkn\<close> and \<^verbatim>\<open>tan\<close> are carried along and never read.
\<close>

record feedstock =
  quantity :: real
  ts :: real
  vs :: real
  bmp :: real
  ch4 :: real
  tkn :: real
  tan_pct :: real
  distance :: real
  cost_per_tonne :: real

text \<open>A row after \<^verbatim>\<open>calculate_biogas_yield\<close>: the input columns and the computed ones.\<close>

record feedstock_yield = feedstock +
  vs_tonnes :: real
  biogas_yield :: real
  methane_yield :: real
  energy_content_kwh :: real
  energy_content_gj :: real
  transport_cost :: real
  feedstock_cost :: real
  total_cost :: real
  cost_per_gj :: npfloat
  cost_per_mwh :: npfloat

text \<open>
  A data frame is the list of the names of its columns and the list of its rows, each row
  under its index label. A row holds a value for every column of the row type; the list
  of names says which of these columns the frame has. Reading a column that the frame does
  not have, \<^verbatim>\<open>df[name]\<close>, raises \<^verbatim>\<open>KeyError\<close>. Every column operation of the source
  works row by row.
\<close>

record 'row dataframe =
  columns :: "string list"
  rows :: "(string \<times> 'row) list"

text \<open>Whether the frame has every column of a list of names, read in that order.\<close>

definition has_columns :: "'row dataframe \<Rightarrow> string list \<Rightarrow> bool" where
  "has_columns df names = list_all (\<lambda>name. name \<in> set (columns df)) names"

text \<open>
  The assignment \<^verbatim>\<open>df[name] = ...\<close>, on the names of the columns: a new column goes to
  the end, a column that is there keeps its place.
\<close>

definition assign_column :: "string list \<Rightarrow> string \<Rightarrow> string list" where
  "assign_column names name = (if name \<in> set names then names else names @ [name])"

text \<open>The default feedstock library, a dictionary of dictionaries.\<close>

definition DEFAULT_FEEDSTOCKS :: "(string \<times> feedstock) list" where
  "DEFAULT_FEEDSTOCKS =
     [(''Meat'',
       \<lparr>quantity = 2622, ts = 32.0, vs = 92.0, bmp = 628.4, ch4 = 60.0, tkn = 2.75,
        tan_pct = 17.1, distance = 50, cost_per_tonne = 20\<rparr>),
      (''Digestate Sludge'',
       \<lparr>quantity = 1495, ts = 20.0, vs = 89.0, bmp = 280.9, ch4 = 55.0, tkn = 1.56,
        tan_pct = 10.0, distance = 10, cost_per_tonne = 5\<rparr>),
      (''Blood Filter Cake'',
       \<lparr>quantity = 3000, ts = 5.3, vs = 96.0, bmp = 660.0, ch4 = 68.0, tkn = 13.61,
        tan_pct = 1.4, distance = 60, cost_per_tonne = 15\<rparr>),
      (''Chicken Carcasses'',
       \<lparr>quantity = 1000, ts = 26.0, vs = 86.0, bmp = 402.5, ch4 = 60.0, tkn = 5.00,
        tan_pct = 10.0, distance = 70, cost_per_tonne = 10\<rparr>),
      (''Chicken Litter'',
       \<lparr>quantity = 10000, ts = 45.0, vs = 75.0, bmp = 500.0, ch4 = 60.0, tkn = 4.86,
        tan_pct = 10.0, distance = 80, cost_per_tonne = 5\<rparr>),
      (''Grain Mix'',
       \<lparr>quantity = 2000, ts = 87.0, vs = 96.0, bmp = 729.8, ch4 = 56.5, tkn = 2.99,
        tan_pct = 10.0, distance = 100, cost_per_tonne = 30\<rparr>),
      (''Crop Straw'',
       \<lparr>quantity = 12500, ts = 85.0, vs = 75.0, bmp = 350.0, ch4 = 51.0, tkn = 0.29,
        tan_pct = 10.0, distance = 120, cost_per_tonne = 25\<rparr>)]"

text \<open>The keys of a feedstock dictionary, in their order.\<close>

definition feedstock_columns :: "string list" where
  "feedstock_columns =
     [''quantity'', ''ts'', ''vs'', ''bmp'', ''ch4'', ''tkn'', ''tan'', ''distance'',
      ''cost_per_tonne'']"

text \<open>
  \<^verbatim>\<open>pd.DataFrame.from_dict(d, orient='index')\<close> of pandas, on a dictionary of feedstock
  dictionaries: a row for every entry, a column for every key of the inner dictionaries.
  The empty dictionary has no inner dictionary, and its frame has no rows and no columns.
\<close>

definition from_dict :: "(string \<times> feedstock) list \<Rightarrow> feedstock dataframe" where
  "from_dict d = \<lparr>columns = (if d = [] then [] else feedstock_columns), rows = d\<rparr>"

definition get_feedstock_df :: "feedstock dataframe" where
  "get_feedstock_df = from_dict DEFAULT_FEEDSTOCKS"

text \<open>
  The computed columns of one row. The last division is a division of columns: on a zero
  energy content it gives an infinity or not-a-number and raises nothing.
\<close>

definition yield_row :: "feedstock \<Rightarrow> feedstock_yield" where
  "yield_row f =
     (let vs_tonnes' = quantity f * (ts f / 100) * (vs f / 100);
          biogas_yield' = vs_tonnes' * bmp f;
          methane_yield' = biogas_yield' * (ch4 f / 100);
          energy_content_kwh' = methane_yield' * 9.97;
          energy_content_gj' = energy_content_kwh' * 0.0036;
          transport_cost' = quantity f * distance f * 0.1;
          feedstock_cost' = quantity f * cost_per_tonne f;
          total_cost' = transport_cost' + feedstock_cost';
          cost_per_gj' = np_div total_cost' energy_content_gj';
          cost_per_mwh' = np_scale cost_per_gj' 3.6
      in feedstock.extend f
           (feedstock_yield.fields vs_tonnes' biogas_yield' methane_yield'
              energy_content_kwh' energy_content_gj' transport_cost' feedstock_cost'
              total_cost' cost_per_gj' cost_per_mwh'))"

text \<open>
  The function reads the columns \<^verbatim>\<open>quantity\<close>, \<^verbatim>\<open>ts\<close>, \<^verbatim>\<open>vs\<close>, \<^verbatim>\<open>bmp\<close>,
  \<^verbatim>\<open>ch4\<close>, \<^verbatim>\<open>distance\<close> and \<^verbatim>\<open>cost_per_tonne\<close> of a copy of the frame, in this order,
  and the first of them that the frame does not have raises \<^verbatim>\<open>KeyError\<close>. It assigns
  ten columns, each computed from columns read or assigned before.
\<close>

definition calculate_biogas_yield ::
  "feedstock dataframe \<Rightarrow> py_error + feedstock_yield dataframe" where
  "calculate_biogas_yield feedstock_df =
     (if has_columns feedstock_df
           [''quantity'', ''ts'', ''vs'', ''bmp'', ''ch4'', ''distance'', ''cost_per_tonne'']
      then
        Inr \<lparr>columns =
               foldl assign_column (columns feedstock_df)
                 [''vs_tonnes'', ''biogas_yield'', ''methane_yield'', ''energy_content_kwh'',
                  ''energy_content_gj'', ''transport_cost'', ''feedstock_cost'',
                  ''total_cost'', ''cost_per_gj'', ''cost_per_mwh''],
             rows = map (\<lambda>(name, f). (name, yield_row f)) (rows feedstock_df)\<rparr>
      else Inl KeyError)"

text \<open>
  \<^verbatim>\<open>df[name].sum()\<close>: the read raises \<^verbatim>\<open>KeyError\<close> when the frame has no column of
  that name; the sum of a column without rows is 0.
\<close>

definition column_sum :: "'row dataframe \<Rightarrow> string \<Rightarrow> ('row \<Rightarrow> real) \<Rightarrow> py_error + real" where
  "column_sum df name field =
     (if name \<in> set (columns df)
      then Inr (sum_list (map (\<lambda>(label, row). field row) (rows df)))
      else Inl KeyError)"

text \<open>
  The dictionary of totals. Its key \<^verbatim>\<open>total_cost\<close> is the field \<open>total_total_cost\<close>
  here, the name \<open>total_cost\<close> being the column of the rows.
\<close>

record totals =
  total_quantity :: real
  total_vs_tonnes :: real
  total_biogas_yield :: real
  total_methane_yield :: real
  total_energy_content_gj :: real
  total_transport_cost :: real
  total_feedstock_cost :: real
  total_total_cost :: real
  avg_cost_per_gj :: real
  avg_cost_per_mwh :: real
  biogas_output_nm3h :: real

definition get_total_metrics :: "feedstock_yield dataframe \<Rightarrow> py_error + totals" where
  "get_total_metrics feedstock_df =
     (case column_sum feedstock_df ''quantity'' quantity of
        Inl e \<Rightarrow> Inl e
      | Inr quantity_sum \<Rightarrow>
      case column_sum feedstock_df ''vs_tonnes'' vs_tonnes of
        Inl e \<Rightarrow> Inl e
      | Inr vs_tonnes_sum \<Rightarrow>
      case column_sum feedstock_df ''biogas_yield'' biogas_yield of
        Inl e \<Rightarrow> Inl e
      | Inr biogas_yield_sum \<Rightarrow>
      case column_sum feedstock_df ''methane_yield'' methane_yield of
        Inl e \<Rightarrow> Inl e
      | Inr methane_yield_sum \<Rightarrow>
      case column_sum feedstock_df ''energy_content_gj'' energy_content_gj of
        Inl e \<Rightarrow> Inl e
      | Inr energy_content_gj_sum \<Rightarrow>
      case column_sum feedstock_df ''transport_cost'' transport_cost of
        Inl e \<Rightarrow> Inl e
      | Inr transport_cost_sum \<Rightarrow>
      case column_sum feedstock_df ''feedstock_cost'' feedstock_cost of
        Inl e \<Rightarrow> Inl e
      | Inr feedstock_cost_sum \<Rightarrow>
      case column_sum feedstock_df ''total_cost'' total_cost of
        Inl e \<Rightarrow> Inl e
      | Inr total_cost_sum \<Rightarrow>
      let (avg_gj, avg_mwh) =
            (if energy_content_gj_sum > 0 then
               (let avg = total_cost_sum / energy_content_gj_sum in (avg, avg * 3.6))
             else (0, 0))
      in Inr \<lparr>total_quantity = quantity_sum,
              total_vs_tonnes = vs_tonnes_sum,
              total_biogas_yield = biogas_yield_sum,
              total_methane_yield = methane_yield_sum,
              total_energy_content_gj = energy_content_gj_sum,
              total_transport_cost = transport_cost_sum,
              total_feedstock_cost = feedstock_cost_sum,
              total_total_cost = total_cost_sum,
              avg_cost_per_gj = avg_gj,
              avg_cost_per_mwh = avg_mwh,
              biogas_output_nm3h = biogas_yield_sum / 8760\<rparr>)"

section \<open>Process calculations: sizing the CHP units\<close>

definition available_sizes :: "real list" where
  "available_sizes = [100, 250, 500, 800, 1000, 1500, 2000]"

text \<open>
  The inner loop
  \<^verbatim>\<open>while remaining_capacity >= size * 0.8: units.append(size); remaining_capacity -= size\<close>.
  Whether it ends depends on the size, so the model is a partial function: \<open>None\<close> is a
  loop that never ends.
\<close>

partial_function (option) add_units ::
  "real \<Rightarrow> real list \<Rightarrow> real \<Rightarrow> (real list \<times> real) option" where
  "add_units unit_size units remaining_capacity =
     (if remaining_capacity \<ge> unit_size * 0.8
      then add_units unit_size (units @ [unit_size]) (remaining_capacity - unit_size)
      else Some (units, remaining_capacity))"

text \<open>The outer loop over the sizes, largest first.\<close>

fun largest_first :: "real list \<Rightarrow> real list \<Rightarrow> real \<Rightarrow> (real list \<times> real) option" where
  "largest_first [] units remaining_capacity = Some (units, remaining_capacity)"
| "largest_first (unit_size # sizes) units remaining_capacity =
     (case add_units unit_size units remaining_capacity of
        None \<Rightarrow> None
      | Some (units', remaining_capacity') \<Rightarrow> largest_first sizes units' remaining_capacity')"

text \<open>
  The second loop, smallest size first: the first size that covers what remains is added
  and the loop is left.
\<close>

fun one_more_unit :: "real list \<Rightarrow> real list \<Rightarrow> real \<Rightarrow> real list \<times> real" where
  "one_more_unit [] units remaining_capacity = (units, remaining_capacity)"
| "one_more_unit (unit_size # sizes) units remaining_capacity =
     (if unit_size \<ge> remaining_capacity then (units @ [unit_size], 0)
      else one_more_unit sizes units remaining_capacity)"

record chp_configuration =
  chp_units :: "real list"
  number_of_units :: nat
  total_installed_capacity_kw :: real
  capacity_utilization :: real

text \<open>
  \<open>select_units\<close> is the part of \<^verbatim>\<open>size_chp_units\<close> that fills the list and leaves the
  residual capacity; \<open>size_chp_units\<close> adds the figures of the returned dictionary.
\<close>

definition select_units :: "real \<Rightarrow> (real list \<times> real) option" where
  "select_units power_capacity_kw =
     (case largest_first (rev (sort available_sizes)) [] power_capacity_kw of
        None \<Rightarrow> None
      | Some (units, remaining_capacity) \<Rightarrow>
          if remaining_capacity > 50
          then Some (one_more_unit (sort available_sizes) units remaining_capacity)
          else Some (units, remaining_capacity))"

definition size_chp_units :: "real \<Rightarrow> chp_configuration option" where
  "size_chp_units power_capacity_kw =
     (case select_units power_capacity_kw of
        None \<Rightarrow> None
      | Some (units, remaining_capacity) \<Rightarrow>
          (let total_capacity = sum_list units
           in Some \<lparr>chp_units = units,
                    number_of_units = length units,
                    total_installed_capacity_kw = total_capacity,
                    capacity_utilization =
                      (if total_capacity > 0 then power_capacity_kw / total_capacity
                       else 0)\<rparr>))"

section \<open>Definitions that follow the specification\<close>

text \<open>
  The definitions of this section are not translations of the source. They say in the words
  of the specification what the loops of the source are compared with.
\<close>

text \<open>The discount factors of the years \<open>1\<close> to \<open>n\<close>, added up.\<close>

definition annuity :: "real \<Rightarrow> int \<Rightarrow> real" where
  "annuity rate n = (\<Sum>y\<leftarrow>[1..n]. 1 / power_int (1 + rate) y)"

text \<open>
  The net present value of a series: the flow of year 0 plus the later flows, each
  discounted over its year.
\<close>

definition npv_spec :: "real list \<Rightarrow> real \<Rightarrow> real" where
  "npv_spec cash_flows rate =
     (\<Sum>year<length cash_flows. cash_flows ! year / (1 + rate) ^ year)"

text \<open>
  The search for the rate of return as the specification words it: at most \<open>k\<close> more
  iterations; an iteration stops the search when the absolute net present value at the
  current rate is below 1; otherwise the step is halved when the sign of the net present
  value differs from the sign met at the iteration before (before the first iteration the
  sign counts as positive), and the rate moves by the step, up under a positive value and
  down under a negative one.
\<close>

fun irr_search :: "(real \<Rightarrow> real) \<Rightarrow> nat \<Rightarrow> real \<Rightarrow> real \<Rightarrow> bool \<Rightarrow> real" where
  "irr_search npv 0 rate step was_negative = rate"
| "irr_search npv (Suc k) rate step was_negative =
     (let v = npv rate in
      if \<bar>v\<bar> < 1 then rate
      else
        (let negative = (v < 0);
             step' = (if negative \<noteq> was_negative then step / 2 else step)
         in irr_search npv k (if negative then rate - step' else rate + step') step' negative))"

text \<open>The search starts at the rate 0.10 with the step 0.05 and has 20 iterations.\<close>

definition irr_spec :: "real list \<Rightarrow> real" where
  "irr_spec cash_flows = irr_search (npv_spec cash_flows) 20 0.1 0.05 False"

text \<open>The cumulative cash flow at the end of a year: the flows of the years 0 to \<open>year\<close>.\<close>

definition cumulative_cash_flow :: "real list \<Rightarrow> int \<Rightarrow> real" where
  "cumulative_cash_flow cash_flows year = sum_list (take (nat year + 1) cash_flows)"

section \<open>Properties of the levelized cost of energy\<close>

lemma pv_loop_closed:
  assumes "rate \<noteq> - 1"
  shows "pv_loop acc amount rate years =
         Inr (acc + amount * (\<Sum>y\<leftarrow>years. 1 / power_int (1 + rate) y))"
  using assms
proof (induction years arbitrary: acc)
  case Nil
  then show ?case by simp
next
  case (Cons y ys)
  from Cons.prems have nz: "1 + rate \<noteq> 0" by linarith
  then have pz: "power_int (1 + rate) y \<noteq> 0" by simp
  show ?case
    using nz pz Cons.IH [OF Cons.prems]
    by (simp add: py_pow_def py_div_def algebra_simps)
qed

text \<open>
  C8. For every annual energy output that is zero or negative, whatever the two breakdowns
  (even ones without a total), the lifetime and the discount rate are,
  \<open>calculate_lcoe\<close> returns exactly 0 and raises nothing.
\<close>

theorem lcoe_zero_energy:
  "annual_energy_output \<le> 0 \<Longrightarrow>
   calculate_lcoe capex opex annual_energy_output project_lifetime discount_rate = Inr 0"
  by (simp add: calculate_lcoe_def)

theorem lcoe_zero_energy_witness:
  "(0::real) \<le> 0 \<and> calculate_lcoe [] [] 0 20 (- 1) = Inr 0"
  using lcoe_zero_energy [of 0 "[]" "[]" 20 "- 1"] by simp

text \<open>
  With a lifetime of at least a year and a discount rate that is not negative, both loops
  of \<open>calculate_lcoe\<close> return, and the result is a quotient of two present values.
\<close>

lemma annuity_pos:
  assumes "1 \<le> n" "0 \<le> rate"
  shows "0 < annuity rate n"
proof -
  have pos: "0 < 1 / power_int (1 + rate) y" for y
    using assms(2) by (simp add: zero_less_power_int)
  have "[1..n] = 1 # [2..n]" using assms(1) by (simp add: upto_rec1)
  then have "annuity rate n = 1 / power_int (1 + rate) 1 + (\<Sum>y\<leftarrow>[2..n]. 1 / power_int (1 + rate) y)"
    by (simp add: annuity_def)
  moreover have "0 \<le> (\<Sum>y\<leftarrow>[2..n]. 1 / power_int (1 + rate) y)"
    by (rule sum_list_nonneg) (use pos in \<open>auto intro: less_imp_le\<close>)
  ultimately show ?thesis using pos [of 1] by linarith
qed

lemma lcoe_closed:
  assumes "getitem capex ''Total CAPEX'' = Inr c" "getitem opex ''Total OPEX'' = Inr p"
    and "0 < e" "1 \<le> n" "0 \<le> r"
  shows "calculate_lcoe capex opex e n r = Inr ((c + p * annuity r n) / (e * annuity r n))"
proof -
  have r: "r \<noteq> - 1" using assms(5) by linarith
  have A: "0 < e * annuity r n" "annuity r n \<noteq> 0"
    using assms(3) annuity_pos [OF assms(4,5)] by simp_all
  have pvc: "pv_loop c p r [1..n] = Inr (c + p * annuity r n)"
    by (simp add: pv_loop_closed [OF r] annuity_def)
  have pve: "pv_loop 0 e r [1..n] = Inr (e * annuity r n)"
    by (simp add: pv_loop_closed [OF r] annuity_def)
  show ?thesis
    using A assms(1,2,3) by (simp add: calculate_lcoe_def pvc pve py_div_def)
qed

text \<open>
  C4. For positive totals of the two breakdowns, a positive annual energy output, a
  lifetime of at least one year and a discount rate that is not negative,
  \<open>calculate_lcoe\<close> returns a value that does not decrease when the CAPEX total grows,
  does not decrease when the OPEX total grows (the energy output held fixed), and does not
  increase when the annual energy output grows (the costs held fixed).
\<close>

theorem lcoe_monotone:
  assumes "getitem capex ''Total CAPEX'' = Inr c" "getitem capex' ''Total CAPEX'' = Inr c'"
    and "getitem opex ''Total OPEX'' = Inr p" "getitem opex' ''Total OPEX'' = Inr p'"
    and "0 < c" "c \<le> c'" "0 < p" "p \<le> p'" "0 < e" "e \<le> e'" "1 \<le> n" "0 \<le> r"
  shows "\<exists>l l_capex l_opex l_energy.
           calculate_lcoe capex opex e n r = Inr l \<and>
           calculate_lcoe capex' opex e n r = Inr l_capex \<and>
           calculate_lcoe capex opex' e n r = Inr l_opex \<and>
           calculate_lcoe capex opex e' n r = Inr l_energy \<and>
           l \<le> l_capex \<and> l \<le> l_opex \<and> l_energy \<le> l"
proof -
  let ?A = "annuity r n"
  have A: "0 < ?A" by (rule annuity_pos) fact+
  have e': "0 < e'" using assms(9,10) by linarith
  have eA: "0 < e * ?A" "0 < e' * ?A" using A assms(9) e' by simp_all
  have num: "0 \<le> c + p * ?A" using A assms(5,7) by (simp add: add_nonneg_nonneg less_imp_le)
  have 1: "(c + p * ?A) / (e * ?A) \<le> (c' + p * ?A) / (e * ?A)"
    using eA(1) assms(6) by (simp add: divide_right_mono)
  have "p * ?A \<le> p' * ?A" using A assms(8) by (simp add: mult_right_mono)
  then have 2: "(c + p * ?A) / (e * ?A) \<le> (c + p' * ?A) / (e * ?A)"
    using eA(1) by (simp add: divide_right_mono)
  have "e * ?A \<le> e' * ?A" using A assms(10) by (simp add: mult_right_mono)
  then have 3: "(c + p * ?A) / (e' * ?A) \<le> (c + p * ?A) / (e * ?A)"
    using eA(1) num by (rule_tac divide_left_mono) (simp_all add: eA)
  show ?thesis
    using 1 2 3
    by (simp add: lcoe_closed [OF assms(1) assms(3) assms(9) assms(11) assms(12)]
        lcoe_closed [OF assms(2) assms(3) assms(9) assms(11) assms(12)]
        lcoe_closed [OF assms(1) assms(4) assms(9) assms(11) assms(12)]
        lcoe_closed [OF assms(1) assms(3) e' assms(11) assms(12)])
qed

theorem lcoe_monotone_witness:
  "\<exists>l l_capex l_opex l_energy.
     calculate_lcoe [(''Total CAPEX'', 1000)] [(''Total OPEX'', 100)] 50 2 0.08 = Inr l \<and>
     calculate_lcoe [(''Total CAPEX'', 1500)] [(''Total OPEX'', 100)] 50 2 0.08 = Inr l_capex \<and>
     calculate_lcoe [(''Total CAPEX'', 1000)] [(''Total OPEX'', 120)] 50 2 0.08 = Inr l_opex \<and>
     calculate_lcoe [(''Total CAPEX'', 1000)] [(''Total OPEX'', 100)] 80 2 0.08 = Inr l_energy \<and>
     l \<le> l_capex \<and> l \<le> l_opex \<and> l_energy \<le> l"
proof -
  have keys:
    "getitem [(''Total CAPEX'', 1000)] ''Total CAPEX'' = Inr 1000"
    "getitem [(''Total CAPEX'', 1500)] ''Total CAPEX'' = Inr 1500"
    "getitem [(''Total OPEX'', 100)] ''Total OPEX'' = Inr 100"
    "getitem [(''Total OPEX'', 120)] ''Total OPEX'' = Inr 120"
    by (simp_all add: getitem_def)
  have bounds: "(0::real) < 1000" "(1000::real) \<le> 1500" "(0::real) < 100"
    "(100::real) \<le> 120" "(0::real) < 50" "(50::real) \<le> 80" "(1::int) \<le> 2"
    "(0::real) \<le> 0.08"
    by simp_all
  show ?thesis by (rule lcoe_monotone [OF keys bounds])
qed

section \<open>Properties of the cost breakdowns\<close>

lemma capex_total:
  "getitem (calculate_capex dv ot cc) ''Total CAPEX'' =
     Inr (sum_other_entries (calculate_capex dv ot cc) ''Total CAPEX'')"
  by (simp add: calculate_capex_def getitem_def sum_other_entries_def Let_def)

lemma capex_upgrading:
  "getitem (calculate_capex dv ''biogas'' cc) ''Biogas Upgrading System'' =
     Inr (dv * 1.5 / 8760 * 10000)"
  by (simp add: calculate_capex_def getitem_def Let_def)

lemma capex_has_total:
  "\<exists>u. getitem (calculate_capex dv ot cc) ''Total CAPEX'' = Inr u"
  by (simp add: capex_total)

lemma opex_total:
  assumes "calculate_opex tf dv ot capex cc = Inr d"
  shows "getitem d ''Total OPEX'' = Inr (sum_other_entries d ''Total OPEX'')"
  using assms
  by (auto simp add: calculate_opex_def getitem_def sum_other_entries_def Let_def
      split: sum.splits option.splits if_splits)

lemma opex_returns:
  "\<exists>d. calculate_opex tf dv ot (calculate_capex dv' ot cc') cc = Inr d"
proof (cases "ot = ''biogas''")
  case True
  obtain u t where "getitem (calculate_capex dv' ''biogas'' cc') ''Biogas Upgrading System'' = Inr u"
    "getitem (calculate_capex dv' ''biogas'' cc') ''Total CAPEX'' = Inr t"
    using capex_upgrading capex_has_total by metis
  then show ?thesis using True by (simp add: calculate_opex_def Let_def)
next
  case False
  obtain t where "getitem (calculate_capex dv' ot cc') ''Total CAPEX'' = Inr t"
    using capex_has_total by metis
  then show ?thesis using False by (simp add: calculate_opex_def Let_def)
qed

text \<open>
  C2. The \<open>Total CAPEX\<close> entry of the breakdown of \<open>calculate_capex\<close> is the sum of
  all its other entries, for every digester volume, pathway and CHP capacity. On the
  breakdown of \<open>calculate_capex\<close> for the same pathway \<open>calculate_opex\<close> returns a
  breakdown, and in every breakdown that \<open>calculate_opex\<close> returns the \<open>Total OPEX\<close>
  entry is the sum of all its other entries.
\<close>

theorem breakdown_totals:
  "getitem (calculate_capex digester_volume output_type chp_capacity) ''Total CAPEX'' =
     Inr (sum_other_entries (calculate_capex digester_volume output_type chp_capacity)
            ''Total CAPEX'') \<and>
   (\<exists>d. calculate_opex total_feedstock volume output_type
          (calculate_capex digester_volume output_type chp_capacity) capacity = Inr d) \<and>
   (\<forall>d. calculate_opex total_feedstock volume pathway capex capacity = Inr d \<longrightarrow>
        getitem d ''Total OPEX'' = Inr (sum_other_entries d ''Total OPEX''))"
  using capex_total opex_returns opex_total by blast

theorem breakdown_totals_witness:
  "\<exists>d. calculate_opex 30000 4000 ''biogas'' (calculate_capex 4000 ''biogas'' 0) 0 = Inr d \<and>
       getitem d ''Total OPEX'' = Inr (sum_other_entries d ''Total OPEX'')"
  using breakdown_totals [of 4000 "''biogas''" 0 30000 4000 0 "''biogas''"
      "calculate_capex 4000 ''biogas'' 0"]
  by blast

section \<open>Properties of the feedstock table\<close>

text \<open>
  Whatever the row is, a zero energy content makes the cost per GJ an infinity or
  not-a-number, by the sign of the total cost, and never a finite number.
\<close>

lemma cost_per_gj_eq:
  "cost_per_gj (yield_row f) =
     np_div (total_cost (yield_row f)) (energy_content_gj (yield_row f))"
  by (simp add: yield_row_def feedstock.extend_def feedstock_yield.fields_def Let_def)

lemma zero_energy_cost_per_gj:
  assumes "energy_content_gj (yield_row f) = 0"
  shows "cost_per_gj (yield_row f) =
           (if 0 < total_cost (yield_row f) then PosInf
            else if total_cost (yield_row f) < 0 then NegInf
            else NaN)"
  unfolding cost_per_gj_eq assms by (simp add: np_div_def)

text \<open>
  C1. The claim is that a row of zero energy content gets the cost 0 per GJ and per MWh.
  The source divides the two columns with no guard. On the frame of two rows made of the
  default row \<open>Meat\<close>, the function returns: with the quantity set to 0 the total cost
  and the energy content are both 0 and both cost columns are not-a-number; with the
  methane potential set to 0 the cost is positive, the energy content is 0 and both cost
  columns are infinite. Nothing is raised.
\<close>

theorem biogas_yield_zero_energy_cost:
  "\<exists>df. calculate_biogas_yield
          (from_dict
             [(''Meat, no quantity'', (snd (hd DEFAULT_FEEDSTOCKS))\<lparr>quantity := 0\<rparr>),
              (''Meat, no methane'', (snd (hd DEFAULT_FEEDSTOCKS))\<lparr>bmp := 0\<rparr>)]) = Inr df \<and>
        map (\<lambda>(name, row).
               (energy_content_gj row, total_cost row, cost_per_gj row, cost_per_mwh row))
          (rows df) =
        [(0, 0, NaN, NaN), (0, 65550, PosInf, PosInf)]"
  by (simp add: calculate_biogas_yield_def from_dict_def has_columns_def feedstock_columns_def
      yield_row_def DEFAULT_FEEDSTOCKS_def np_div_def feedstock.extend_def
      feedstock_yield.fields_def)

text \<open>The totals of a frame without rows that has the eight columns read.\<close>

lemma column_sum_no_rows:
  "rows df = [] \<Longrightarrow>
   column_sum df name field = (if name \<in> set (columns df) then Inr 0 else Inl KeyError)"
  by (simp add: column_sum_def)

text \<open>
  C7, as the claim states it: aggregating the empty feedstock set returns totals that are
  all zero and raises nothing. The frame that \<open>from_dict\<close> builds of the empty set has no
  columns: \<open>calculate_biogas_yield\<close> raises \<^verbatim>\<open>KeyError\<close> on it, and so does
  \<open>get_total_metrics\<close> on the frame of these columns and no rows.
\<close>

theorem total_metrics_empty_set_counterexample:
  "calculate_biogas_yield (from_dict []) = Inl KeyError \<and>
   get_total_metrics \<lparr>columns = columns (from_dict []), rows = []\<rparr> = Inl KeyError"
  by (simp add: calculate_biogas_yield_def get_total_metrics_def from_dict_def
      has_columns_def column_sum_def)

text \<open>
  C7, amended. On a frame without rows \<open>get_total_metrics\<close> returns totals that are all
  zero, the two average costs included, and divides nothing by zero, when the frame has the
  eight columns that the function sums; when one of them is missing it raises
  \<^verbatim>\<open>KeyError\<close>.
\<close>

theorem total_metrics_no_rows:
  assumes "rows feedstock_df = []"
  shows "get_total_metrics feedstock_df =
     (if has_columns feedstock_df
           [''quantity'', ''vs_tonnes'', ''biogas_yield'', ''methane_yield'',
            ''energy_content_gj'', ''transport_cost'', ''feedstock_cost'', ''total_cost'']
      then Inr \<lparr>total_quantity = 0, total_vs_tonnes = 0, total_biogas_yield = 0,
                total_methane_yield = 0, total_energy_content_gj = 0,
                total_transport_cost = 0, total_feedstock_cost = 0, total_total_cost = 0,
                avg_cost_per_gj = 0, avg_cost_per_mwh = 0, biogas_output_nm3h = 0\<rparr>
      else Inl KeyError)"
  by (simp add: get_total_metrics_def has_columns_def column_sum_no_rows [OF assms])

text \<open>
  A frame that has the feedstock columns and no rows: its yields have no rows, and the
  totals of the yields are all zero.
\<close>

theorem total_metrics_no_rows_witness:
  "\<exists>df. calculate_biogas_yield \<lparr>columns = feedstock_columns, rows = []\<rparr> = Inr df \<and>
        rows df = [] \<and>
        get_total_metrics df =
          Inr \<lparr>total_quantity = 0, total_vs_tonnes = 0, total_biogas_yield = 0,
               total_methane_yield = 0, total_energy_content_gj = 0,
               total_transport_cost = 0, total_feedstock_cost = 0, total_total_cost = 0,
               avg_cost_per_gj = 0, avg_cost_per_mwh = 0, biogas_output_nm3h = 0\<rparr>"
proof -
  define df :: "feedstock_yield dataframe" where
    "df = \<lparr>columns = feedstock_columns @
              [''vs_tonnes'', ''biogas_yield'', ''methane_yield'', ''energy_content_kwh'',
               ''energy_content_gj'', ''transport_cost'', ''feedstock_cost'',
               ''total_cost'', ''cost_per_gj'', ''cost_per_mwh''],
            rows = []\<rparr>"
  have yield: "calculate_biogas_yield \<lparr>columns = feedstock_columns, rows = []\<rparr> = Inr df"
    by (simp add: calculate_biogas_yield_def has_columns_def feedstock_columns_def
        assign_column_def df_def)
  have no_rows: "rows df = []" by (simp add: df_def)
  have cols: "has_columns df
           [''quantity'', ''vs_tonnes'', ''biogas_yield'', ''methane_yield'',
            ''energy_content_gj'', ''transport_cost'', ''feedstock_cost'', ''total_cost'']"
    by (simp add: has_columns_def df_def feedstock_columns_def)
  show ?thesis
    using yield no_rows cols total_metrics_no_rows [OF no_rows] by simp
qed

section \<open>Properties of the CHP sizing\<close>

text \<open>The catalogue in the two orders in which the loops walk it.\<close>

lemma sizes_desc: "rev (sort available_sizes) = [2000, 1500, 1000, 800, 500, 250, 100]"
  by (simp add: available_sizes_def)

lemma sizes_asc: "sort available_sizes = [100, 250, 500, 800, 1000, 1500, 2000]"
  by (simp add: available_sizes_def)

text \<open>
  The inner loop ends for every positive size: each round takes the size off what remains.
  It leaves less than 80 percent of the size, and the units added and the residual together
  make up what there was.
\<close>

lemma add_units_stop:
  "remaining < unit_size * 0.8 \<Longrightarrow> add_units unit_size units remaining = Some (units, remaining)"
  by (subst add_units.simps) simp

lemma add_units_terminates_aux:
  assumes "0 < unit_size"
  shows "remaining < unit_size * 0.8 + real n * unit_size \<Longrightarrow>
         \<exists>units' remaining'. add_units unit_size units remaining = Some (units', remaining') \<and>
            remaining' < unit_size * 0.8 \<and>
            sum_list units' + remaining' = sum_list units + remaining"
proof (induction n arbitrary: units remaining)
  case 0
  then show ?case by (simp add: add_units_stop)
next
  case (Suc n)
  show ?case
  proof (cases "remaining < unit_size * 0.8")
    case True
    then show ?thesis by (simp add: add_units_stop)
  next
    case False
    have "remaining - unit_size < unit_size * 0.8 + real n * unit_size"
      using Suc.prems by (simp add: algebra_simps)
    from Suc.IH [OF this, of "units @ [unit_size]"]
    obtain units' remaining' where
      "add_units unit_size (units @ [unit_size]) (remaining - unit_size) = Some (units', remaining')"
      "remaining' < unit_size * 0.8"
      "sum_list units' + remaining' = sum_list (units @ [unit_size]) + (remaining - unit_size)"
      by blast
    moreover have "add_units unit_size units remaining =
        add_units unit_size (units @ [unit_size]) (remaining - unit_size)"
      using False by (subst add_units.simps) simp
    ultimately show ?thesis by simp
  qed
qed

lemma add_units_terminates:
  assumes "0 < unit_size"
  shows "\<exists>units' remaining'. add_units unit_size units remaining = Some (units', remaining') \<and>
            remaining' < unit_size * 0.8 \<and>
            sum_list units' + remaining' = sum_list units + remaining"
proof -
  obtain n where "remaining / unit_size < real n"
    using reals_Archimedean2 by blast
  then have "remaining < real n * unit_size"
    using assms by (simp add: pos_divide_less_eq)
  then have "remaining < unit_size * 0.8 + real n * unit_size"
    using assms by simp
  then show ?thesis by (rule add_units_terminates_aux [OF assms])
qed

lemma largest_first_terminates:
  assumes "\<forall>s \<in> set sizes. 0 < s" "sizes \<noteq> []"
  shows "\<exists>units' remaining'. largest_first sizes units remaining = Some (units', remaining') \<and>
            remaining' < last sizes * 0.8 \<and>
            sum_list units' + remaining' = sum_list units + remaining"
  using assms
proof (induction sizes arbitrary: units remaining)
  case Nil
  then show ?case by simp
next
  case (Cons s sizes)
  from Cons.prems have "0 < s" by simp
  from add_units_terminates [OF this, of units remaining]
  obtain u1 r1 where 1: "add_units s units remaining = Some (u1, r1)" "r1 < s * 0.8"
    "sum_list u1 + r1 = sum_list units + remaining" by blast
  show ?case
  proof (cases "sizes = []")
    case True
    then show ?thesis using 1 by simp
  next
    case False
    with Cons.prems have "\<forall>s \<in> set sizes. 0 < s" by simp
    from Cons.IH [OF this False, of u1 r1]
    show ?thesis using 1 False by simp
  qed
qed

lemma select_units_total:
  "\<exists>units remaining. select_units target = Some (units, remaining) \<and> remaining \<le> 50 \<and>
      target - 50 \<le> sum_list units"
proof -
  have "\<exists>u r. largest_first (rev (sort available_sizes)) [] target = Some (u, r) \<and>
      r < last (rev (sort available_sizes)) * 0.8 \<and> sum_list u + r = sum_list [] + target"
    by (rule largest_first_terminates) (simp_all add: sizes_desc)
  then obtain u r where g: "largest_first (rev (sort available_sizes)) [] target = Some (u, r)"
    "r < 80" "sum_list u + r = target" by (auto simp: sizes_desc)
  show ?thesis
  proof (cases "r > 50")
    case True
    then have "one_more_unit (sort available_sizes) u r = (u @ [100], 0)"
      using g(2) by (simp add: sizes_asc)
    then show ?thesis using g True by (simp add: select_units_def)
  next
    case False
    then show ?thesis using g by (simp add: select_units_def)
  qed
qed

text \<open>
  C10. For every target capacity \<open>size_chp_units\<close> returns; the residual capacity that
  the selected units leave uncovered is at most 50 kW, and the total installed capacity,
  the sum of the units, is at least the target less 50 kW.
\<close>

theorem size_chp_units_covers_target:
  "\<exists>c units remaining.
     select_units target = Some (units, remaining) \<and> remaining \<le> 50 \<and>
     size_chp_units target = Some c \<and> chp_units c = units \<and>
     total_installed_capacity_kw c = sum_list units \<and>
     target - 50 \<le> total_installed_capacity_kw c"
proof -
  from select_units_total [of target] obtain units remaining where
    "select_units target = Some (units, remaining)" "remaining \<le> 50"
    "target - 50 \<le> sum_list units" by blast
  then show ?thesis by (simp add: size_chp_units_def Let_def)
qed

text \<open>
  C9. For the target capacity 0 \<open>size_chp_units\<close> returns the empty list of units, the
  count 0, the installed capacity 0 and the utilization 0.
\<close>

theorem size_chp_units_zero:
  "size_chp_units 0 =
     Some \<lparr>chp_units = [], number_of_units = 0, total_installed_capacity_kw = 0,
           capacity_utilization = 0\<rparr>"
  by (simp add: size_chp_units_def select_units_def sizes_desc sizes_asc add_units_stop)

section \<open>Properties of the financial metrics\<close>

subsection \<open>Debt service\<close>

lemma growth_ne_one:
  assumes "0 < r" "t \<noteq> 0"
  shows "power_int (1 + r) t \<noteq> (1::real)"
proof (cases "0 < t")
  case True
  then have "1 < power_int (1 + r) t" using assms(1) by (intro one_less_power_int) simp_all
  then show ?thesis by simp
next
  case False
  then have "t < 0" using assms(2) by simp
  then have "power_int (1 + r) t < power_int (1 + r) 0"
    using assms(1) by (intro power_int_strict_increasing) simp_all
  then show ?thesis by simp
qed

lemma debt_service_annuity:
  assumes "0 < r" "t \<noteq> 0"
  shows "annual_debt_service d r t =
           Inr (d * r * power_int (1 + r) t / (power_int (1 + r) t - 1))"
  using assms growth_ne_one [OF assms]
  by (simp add: annual_debt_service_def py_pow_def py_div_def)

lemma debt_service_straight:
  assumes "r = 0" "t \<noteq> 0"
  shows "annual_debt_service d r t = Inr (d / of_int t)"
  using assms by (simp add: annual_debt_service_def py_div_def)

lemma debt_service_returns:
  assumes "t \<noteq> 0"
  shows "\<exists>a. annual_debt_service d r t = Inr a"
proof (cases "0 < r")
  case True
  then show ?thesis using debt_service_annuity [OF True assms] by simp
next
  case False
  then show ?thesis using assms by (simp add: annual_debt_service_def py_div_def)
qed

text \<open>A term of zero years raises, whatever the interest rate is.\<close>

lemma debt_service_zero_term_raises:
  "annual_debt_service d r 0 = Inl ZeroDivisionError"
  by (simp add: annual_debt_service_def py_pow_def py_div_def)

text \<open>The example of the specification, as an exact fraction: about 90,653.2025.\<close>

lemma debt_service_example:
  "annual_debt_service 700000 0.05 10 = Inr (583795834237035000 / 6439880978201)"
  by (simp add: annual_debt_service_def py_pow_def py_div_def power_divide)

lemma debt_service_example_value:
  "\<exists>v. annual_debt_service 700000 0.05 10 = Inr v \<and>
       9065320 / 100 < v \<and> v < 9065321 / 100"
proof (intro exI conjI)
  show "annual_debt_service 700000 0.05 10 = Inr (583795834237035000 / 6439880978201)"
    by (rule debt_service_example)
  show "9065320 / 100 < (583795834237035000 / 6439880978201 :: real)" by simp
  show "(583795834237035000 / 6439880978201 :: real) < 9065321 / 100" by simp
qed

text \<open>
  C6, as the claim states it: the annual payment on a debt of 700,000 at the rate 0.05 over
  10 years is about 90,663. It is not: the payment differs from 90,663 by more than 9.
\<close>

theorem debt_service_example_counterexample:
  "\<not> (\<exists>v. annual_debt_service 700000 0.05 10 = Inr v \<and> \<bar>v - 90663\<bar> \<le> 9)"
proof
  assume "\<exists>v. annual_debt_service 700000 0.05 10 = Inr v \<and> \<bar>v - 90663\<bar> \<le> 9"
  then obtain v where v: "annual_debt_service 700000 0.05 10 = Inr v" "\<bar>v - 90663\<bar> \<le> 9"
    by blast
  obtain w where w: "annual_debt_service 700000 0.05 10 = Inr w" "w < 9065321 / 100"
    using debt_service_example_value by blast
  from v(1) w(1) have "v = w" by simp
  with v(2) w(2) show False by linarith
qed

text \<open>
  C6, amended. For a term other than zero years the annual debt service is
  \<open>debt \<times> rate \<times> (1 + rate)^term / ((1 + rate)^term - 1)\<close> when the interest rate is
  positive and \<open>debt / term\<close> when the rate is 0; for a debt of 700,000 at the rate 0.05
  over 10 years the annual payment lies between 90,653.20 and 90,653.21.
\<close>

theorem debt_service_formula:
  assumes "debt_term \<noteq> 0"
  shows "(0 < debt_interest \<longrightarrow>
            annual_debt_service debt_amount debt_interest debt_term =
              Inr (debt_amount * debt_interest * power_int (1 + debt_interest) debt_term /
                   (power_int (1 + debt_interest) debt_term - 1))) \<and>
         (debt_interest = 0 \<longrightarrow>
            annual_debt_service debt_amount debt_interest debt_term =
              Inr (debt_amount / of_int debt_term)) \<and>
         (\<exists>v. annual_debt_service 700000 0.05 10 = Inr v \<and>
              9065320 / 100 < v \<and> v < 9065321 / 100)"
  using assms debt_service_annuity debt_service_straight debt_service_example_value
  by simp

theorem debt_service_formula_witness:
  "annual_debt_service 1000 0.1 2 = Inr (1000 * 0.1 * 1.1 ^ 2 / (1.1 ^ 2 - 1)) \<and>
   annual_debt_service 1000 0 4 = Inr 250"
proof -
  have t: "(2::int) \<noteq> 0" "(4::int) \<noteq> 0" by simp_all
  show ?thesis
    using debt_service_formula [OF t(1), of "0.1" 1000] debt_service_formula [OF t(2), of 0 1000]
    by simp
qed

subsection \<open>Net present value and the search for the rate of return\<close>

text \<open>
  The loop of the net present value returns the sum of the specification whenever the rate
  is not \<open>-1\<close>.
\<close>

lemma npv_loop_closed:
  assumes "1 + rate \<noteq> 0"
  shows "npv_loop acc rate (int y) cfs =
           Inr (acc + (\<Sum>k<length cfs. cfs ! k / (1 + rate) ^ (y + k)))"
proof (induction cfs arbitrary: acc y)
  case Nil
  then show ?case by simp
next
  case (Cons cf cfs)
  have nz: "(1 + rate) ^ y \<noteq> 0" using assms by simp
  have step: "npv_loop acc rate (int y) (cf # cfs) =
              npv_loop (acc + cf / (1 + rate) ^ y) rate (int (Suc y)) cfs"
    using assms nz by (simp add: py_pow_def py_div_def add.commute)
  show ?case
    unfolding step Cons.IH
    by (simp add: sum.lessThan_Suc_shift add.assoc del: sum.lessThan_Suc)
qed

lemma npv_of_spec:
  assumes "1 + rate \<noteq> 0" "cfs \<noteq> []"
  shows "npv_of cfs rate = Inr (npv_spec cfs rate)"
proof -
  obtain cf0 rest where cfs: "cfs = cf0 # rest" using assms(2) by (cases cfs) auto
  have "npv_loop cf0 rate (int 1) rest =
          Inr (cf0 + (\<Sum>k<length rest. rest ! k / (1 + rate) ^ (1 + k)))"
    by (rule npv_loop_closed [OF assms(1)])
  then show ?thesis
    by (simp add: npv_of_def cfs npv_spec_def sum.lessThan_Suc_shift del: sum.lessThan_Suc)
qed

text \<open>
  The search of the source and the search of the specification agree. The variable
  \<^verbatim>\<open>direction\<close> of the source is 1 or -1 and is negative exactly when the last net
  present value was negative; the rate stays above \<open>-1\<close> for the iterations that are
  left, so that no evaluation of the net present value divides by zero.
\<close>

lemma irr_loop_refines:
  assumes "cfs \<noteq> []"
  shows "direction = 1 \<or> direction = - 1 \<Longrightarrow> 0 < step \<Longrightarrow> - 1 < irr - real k * step \<Longrightarrow>
         irr_loop cfs k irr step direction =
           Inr (irr_search (npv_spec cfs) k irr step (direction < 0))"
proof (induction k arbitrary: irr step direction)
  case 0
  then show ?case by simp
next
  case (Suc k)
  have ks: "0 \<le> real (Suc k) * step" using Suc.prems(2) by simp
  then have "- 1 < irr" using Suc.prems(3) by linarith
  then have nz: "1 + irr \<noteq> 0" by linarith
  note npv = npv_of_spec [OF nz assms]
  let ?v = "npv_spec cfs irr"
  show ?case
  proof (cases "\<bar>?v\<bar> < 1")
    case True
    then show ?thesis by (simp add: npv)
  next
    case False
    then have v0: "?v \<noteq> 0" by auto
    define direction' where "direction' = (if ?v * direction < 0 then - direction else direction)"
    define step' where "step' = (if ?v * direction < 0 then step / 2 else step)"
    have d': "direction' = 1 \<or> direction' = - 1" using Suc.prems(1) by (auto simp: direction'_def)
    have s': "0 < step'" "step' \<le> step" using Suc.prems(2) by (auto simp: step'_def)
    have neg: "(direction' < 0) = (?v < 0)"
      using Suc.prems(1) v0 by (auto simp: direction'_def mult_less_0_iff)
    have flip: "(?v * direction < 0) = ((?v < 0) \<noteq> (direction < 0))"
      using Suc.prems(1) v0 by (auto simp: mult_less_0_iff)
    have "real k * step' \<le> real k * step" using s'(2) by (simp add: mult_left_mono)
    moreover have "real (Suc k) * step = real k * step + step" by (simp add: algebra_simps)
    moreover have "\<bar>step' * direction'\<bar> = step'" using d' s'(1) by auto
    ultimately have bound: "- 1 < (irr + step' * direction') - real k * step'"
      using Suc.prems(3) s' by (smt (verit))
    have move: "irr + step' * direction' = (if ?v < 0 then irr - step' else irr + step')"
      using d' neg by auto
    have "irr_loop cfs (Suc k) irr step direction =
            irr_loop cfs k (irr + step' * direction') step' direction'"
      using False by (simp add: npv direction'_def step'_def)
    also have "\<dots> = Inr (irr_search (npv_spec cfs) k (irr + step' * direction') step'
                          (direction' < 0))"
      by (rule Suc.IH [OF d' s'(1) bound])
    finally have lhs: "irr_loop cfs (Suc k) irr step direction =
        Inr (irr_search (npv_spec cfs) k (if ?v < 0 then irr - step' else irr + step') step'
               (?v < 0))"
      unfolding neg move .
    have step'_alt: "step' = (if (?v < 0) \<noteq> (direction < 0) then step / 2 else step)"
      unfolding step'_def flip ..
    have rhs: "irr_search (npv_spec cfs) (Suc k) irr step (direction < 0) =
        irr_search (npv_spec cfs) k (if ?v < 0 then irr - step' else irr + step') step' (?v < 0)"
      unfolding step'_alt using False by (simp add: Let_def)
    show ?thesis unfolding lhs rhs ..
  qed
qed

lemma irr_loop_spec:
  assumes "cfs \<noteq> []"
  shows "irr_loop cfs 20 0.1 0.05 1 = Inr (irr_spec cfs)"
  using irr_loop_refines [OF assms, of 1 "0.05" "0.1" 20] by (simp add: irr_spec_def)

subsection \<open>Payback period\<close>

text \<open>Once the payback period is set, the loop only adds up what is left.\<close>

lemma payback_loop_done:
  "pb \<noteq> 0 \<Longrightarrow> payback_loop c pb y cfs = (c + sum_list cfs, pb)"
  by (induction cfs arbitrary: c y) (simp_all add: Let_def add.assoc)

text \<open>
  From the loop started in a year \<open>y\<close> with no payback yet: either no prefix of the flows
  brings the sum up to zero, and the period stays 0, or the period is the year of the first
  prefix that does.
\<close>

lemma payback_loop_first:
  assumes "1 \<le> y"
  shows "\<exists>pb. payback_loop c 0 y cfs = (c + sum_list cfs, pb) \<and>
     ((pb = 0 \<and> (\<forall>k<length cfs. c + sum_list (take (Suc k) cfs) < 0)) \<or>
      (\<exists>k<length cfs. pb = y + int k \<and> 0 \<le> c + sum_list (take (Suc k) cfs) \<and>
          (\<forall>j<k. c + sum_list (take (Suc j) cfs) < 0)))"
  using assms
proof (induction cfs arbitrary: c y)
  case Nil
  then show ?case by simp
next
  case (Cons cf cfs)
  show ?case
  proof (cases "0 \<le> c + cf")
    case True
    have "y \<noteq> 0" using Cons.prems by simp
    then have "payback_loop c 0 y (cf # cfs) = (c + sum_list (cf # cfs), y)"
      using True by (simp add: payback_loop_done add.assoc)
    moreover have "0 < length (cf # cfs) \<and> y = y + int 0 \<and>
        0 \<le> c + sum_list (take (Suc 0) (cf # cfs)) \<and>
        (\<forall>j<0. c + sum_list (take (Suc j) (cf # cfs)) < 0)"
      using True by simp
    ultimately show ?thesis by blast
  next
    case False
    have y1: "1 \<le> y + 1" using Cons.prems by simp
    from Cons.IH [OF y1, of "c + cf"] obtain pb where
      loop: "payback_loop (c + cf) 0 (y + 1) cfs = (c + cf + sum_list cfs, pb)" and
      alt: "(pb = 0 \<and> (\<forall>k<length cfs. c + cf + sum_list (take (Suc k) cfs) < 0)) \<or>
        (\<exists>k<length cfs. pb = y + 1 + int k \<and> 0 \<le> c + cf + sum_list (take (Suc k) cfs) \<and>
          (\<forall>j<k. c + cf + sum_list (take (Suc j) cfs) < 0))"
      by blast
    have res: "payback_loop c 0 y (cf # cfs) = (c + sum_list (cf # cfs), pb)"
      using False loop by (simp add: add.assoc)
    have neg0: "c + sum_list (take (Suc 0) (cf # cfs)) < 0" using False by simp
    from alt show ?thesis
    proof
      assume a: "pb = 0 \<and> (\<forall>k<length cfs. c + cf + sum_list (take (Suc k) cfs) < 0)"
      have "\<forall>k<length (cf # cfs). c + sum_list (take (Suc k) (cf # cfs)) < 0"
      proof (intro allI impI)
        fix k assume "k < length (cf # cfs)"
        then show "c + sum_list (take (Suc k) (cf # cfs)) < 0"
          using a neg0 by (cases k) (simp_all add: add.assoc)
      qed
      then show ?thesis using res a by blast
    next
      assume "\<exists>k<length cfs. pb = y + 1 + int k \<and> 0 \<le> c + cf + sum_list (take (Suc k) cfs) \<and>
          (\<forall>j<k. c + cf + sum_list (take (Suc j) cfs) < 0)"
      then obtain k where k: "k < length cfs" "pb = y + 1 + int k"
        "0 \<le> c + cf + sum_list (take (Suc k) cfs)"
        "\<forall>j<k. c + cf + sum_list (take (Suc j) cfs) < 0" by blast
      have "\<forall>j<Suc k. c + sum_list (take (Suc j) (cf # cfs)) < 0"
      proof (intro allI impI)
        fix j assume "j < Suc k"
        then show "c + sum_list (take (Suc j) (cf # cfs)) < 0"
          using k(4) neg0 by (cases j) (simp_all add: add.assoc)
      qed
      moreover have "Suc k < length (cf # cfs)" "pb = y + int (Suc k)"
        "0 \<le> c + sum_list (take (Suc (Suc k)) (cf # cfs))"
        using k by (simp_all add: add.assoc)
      ultimately show ?thesis using res by blast
    qed
  qed
qed

lemma length_cash_flow_series:
  "length (cash_flow_series e revenue p a dt tr n) = Suc (nat n)"
  by (simp add: cash_flow_series_def)

lemma cash_flow_series_Cons:
  "cash_flow_series e revenue p a dt tr n =
     (- e) # map (annual_cash_flow revenue p a dt tr) [1..n]"
  by (simp add: cash_flow_series_def)

lemma payback_of_first:
  assumes "rest \<noteq> [] \<or> cf0 < 0" "int (length rest) = max 0 n"
  shows "\<exists>pb. payback_of (cf0 # rest) n = Inr pb \<and>
     (\<forall>y. 1 \<le> y \<longrightarrow> y \<le> n \<longrightarrow> 0 \<le> cumulative_cash_flow (cf0 # rest) y \<longrightarrow>
           (\<forall>k. 1 \<le> k \<longrightarrow> k < y \<longrightarrow> cumulative_cash_flow (cf0 # rest) k < 0) \<longrightarrow> pb = y) \<and>
     ((\<forall>y. 1 \<le> y \<longrightarrow> y \<le> n \<longrightarrow> cumulative_cash_flow (cf0 # rest) y < 0) \<longrightarrow> pb = n + 1)"
proof -
  have cum: "cumulative_cash_flow (cf0 # rest) (1 + int k) = cf0 + sum_list (take (Suc k) rest)" for k
    by (simp add: cumulative_cash_flow_def nat_add_distrib)
  from payback_loop_first [of 1 cf0 rest] obtain pb where
    loop: "payback_loop cf0 0 1 rest = (cf0 + sum_list rest, pb)" and
    alt: "(pb = 0 \<and> (\<forall>k<length rest. cf0 + sum_list (take (Suc k) rest) < 0)) \<or>
      (\<exists>k<length rest. pb = 1 + int k \<and> 0 \<le> cf0 + sum_list (take (Suc k) rest) \<and>
          (\<forall>j<k. cf0 + sum_list (take (Suc j) rest) < 0))"
    by auto
  from alt show ?thesis
  proof
    assume a: "pb = 0 \<and> (\<forall>k<length rest. cf0 + sum_list (take (Suc k) rest) < 0)"
    have final: "cf0 + sum_list rest < 0"
    proof (cases "rest = []")
      case True
      then show ?thesis using assms(1) by simp
    next
      case False
      then have "length rest - 1 < length rest" by simp
      with a have "cf0 + sum_list (take (Suc (length rest - 1)) rest) < 0" by blast
      then show ?thesis using False by simp
    qed
    have res: "payback_of (cf0 # rest) n = Inr (n + 1)"
      using loop a final by (simp add: payback_of_def)
    have none: "\<not> 0 \<le> cumulative_cash_flow (cf0 # rest) y" if "1 \<le> y" "y \<le> n" for y
    proof -
      have "nat (y - 1) < length rest" using that assms(2) by linarith
      with a have "cf0 + sum_list (take (Suc (nat (y - 1))) rest) < 0" by blast
      moreover have "y = 1 + int (nat (y - 1))" using that by simp
      ultimately show ?thesis using cum [of "nat (y - 1)"] by simp
    qed
    show ?thesis using res none by auto
  next
    assume "\<exists>k<length rest. pb = 1 + int k \<and> 0 \<le> cf0 + sum_list (take (Suc k) rest) \<and>
          (\<forall>j<k. cf0 + sum_list (take (Suc j) rest) < 0)"
    then obtain k where k: "k < length rest" "pb = 1 + int k"
      "0 \<le> cf0 + sum_list (take (Suc k) rest)"
      "\<forall>j<k. cf0 + sum_list (take (Suc j) rest) < 0" by blast
    have res: "payback_of (cf0 # rest) n = Inr pb"
      using loop k(2) by (simp add: payback_of_def)
    have kn: "1 + int k \<le> n" using k(1) assms(2) by linarith
    have first: "pb = y" if y: "1 \<le> y" "y \<le> n" "0 \<le> cumulative_cash_flow (cf0 # rest) y"
        "\<forall>j. 1 \<le> j \<longrightarrow> j < y \<longrightarrow> cumulative_cash_flow (cf0 # rest) j < 0" for y
    proof -
      have yy: "y = 1 + int (nat (y - 1))" using y(1) by simp
      have "\<not> nat (y - 1) < k"
      proof
        assume "nat (y - 1) < k"
        with k(4) have "cf0 + sum_list (take (Suc (nat (y - 1))) rest) < 0" by blast
        then show False using y(3) cum [of "nat (y - 1)"] yy by simp
      qed
      moreover have "\<not> k < nat (y - 1)"
      proof
        assume "k < nat (y - 1)"
        then have "1 \<le> 1 + int k" "1 + int k < y" by linarith+
        with y(4) have "cumulative_cash_flow (cf0 # rest) (1 + int k) < 0" by blast
        then show False using k(3) cum [of k] by simp
      qed
      ultimately have "k = nat (y - 1)" by linarith
      then show ?thesis using k(2) yy by simp
    qed
    have some: "\<not> (\<forall>y. 1 \<le> y \<longrightarrow> y \<le> n \<longrightarrow> cumulative_cash_flow (cf0 # rest) y < 0)"
    proof
      assume "\<forall>y. 1 \<le> y \<longrightarrow> y \<le> n \<longrightarrow> cumulative_cash_flow (cf0 # rest) y < 0"
      with kn have "cumulative_cash_flow (cf0 # rest) (1 + int k) < 0" by simp
      then show False using k(3) cum [of k] by simp
    qed
    show ?thesis using res first some by blast
  qed
qed

lemma cash_flow_series_nonempty: "cash_flow_series e revenue p a dt tr n \<noteq> []"
  by (simp add: cash_flow_series_def)

lemma payback_of_returns: "cfs \<noteq> [] \<Longrightarrow> \<exists>pb. payback_of cfs n = Inr pb"
  by (cases cfs) (auto simp: payback_of_def split: prod.splits)

lemma financial_metrics_unfold:
  assumes "getitem capex ''Total CAPEX'' = Inr c" "getitem opex ''Total OPEX'' = Inr p"
    and "annual_debt_service (c * dp) di dt = Inr a"
    and "dr \<noteq> - 1"
    and "payback_of (cash_flow_series (c * (1 - dp)) revenue p a dt tr n) n = Inr pb"
  shows "calculate_financial_metrics capex opex revenue n dr dp di dt tr =
     Inr \<lparr>NPV = npv_spec (cash_flow_series (c * (1 - dp)) revenue p a dt tr n) dr,
          IRR = irr_spec (cash_flow_series (c * (1 - dp)) revenue p a dt tr n),
          Payback_Period = pb,
          Debt_Service_Coverage_Ratio = (if a > 0 then Fin ((revenue - p) / a) else PosInf),
          Equity_Return = irr_spec (cash_flow_series (c * (1 - dp)) revenue p a dt tr n)\<rparr>"
proof -
  let ?cfs = "cash_flow_series (c * (1 - dp)) revenue p a dt tr n"
  have ne: "?cfs \<noteq> []" by (rule cash_flow_series_nonempty)
  have "1 + dr \<noteq> 0" using assms(4) by linarith
  then have npv: "npv_of ?cfs dr = Inr (npv_spec ?cfs dr)" using ne by (rule npv_of_spec)
  have irr: "irr_loop ?cfs 20 0.1 0.05 1 = Inr (irr_spec ?cfs)" using ne by (rule irr_loop_spec)
  show ?thesis
    unfolding calculate_financial_metrics_def Let_def
    by (simp only: assms(1,2,3,5) npv irr sum.case)
qed

text \<open>
  In the two theorems that follow \<open>c\<close> and \<open>p\<close> are the totals of the two breakdowns,
  \<open>a\<close> is the annual debt service, \<open>n\<close> the project lifetime, \<open>dr\<close> the discount
  rate, \<open>dp\<close> the debt percentage, \<open>di\<close> the debt interest, \<open>dt\<close> the debt term and
  \<open>tr\<close> the tax rate.
\<close>

text \<open>
  C3. Let the two breakdowns carry their totals, the debt term be other than zero and the
  discount rate other than \<open>-1\<close>, and let the lifetime be at least one year or the
  equity outlay of year 0 positive. Then \<open>calculate_financial_metrics\<close> raises nothing,
  and of the cumulative cash flow of its series, which starts from the negative equity
  outlay: the payback period is the first year from 1 to the lifetime at whose end it
  is not negative, and the payback period is the lifetime plus one when it is negative at
  the end of every year from 1 to the lifetime.
\<close>

theorem payback_period_first_nonnegative_year:
  assumes "getitem capex ''Total CAPEX'' = Inr c" "getitem opex ''Total OPEX'' = Inr p"
    and "dt \<noteq> 0" "dr \<noteq> - 1"
    and "1 \<le> n \<or> 0 < c * (1 - dp)"
  shows "\<exists>m a. annual_debt_service (c * dp) di dt = Inr a \<and>
      calculate_financial_metrics capex opex revenue n dr dp di dt tr = Inr m \<and>
      (\<forall>y. 1 \<le> y \<longrightarrow> y \<le> n \<longrightarrow>
         0 \<le> cumulative_cash_flow (cash_flow_series (c * (1 - dp)) revenue p a dt tr n) y \<longrightarrow>
         (\<forall>k. 1 \<le> k \<longrightarrow> k < y \<longrightarrow>
            cumulative_cash_flow (cash_flow_series (c * (1 - dp)) revenue p a dt tr n) k < 0) \<longrightarrow>
         Payback_Period m = y) \<and>
      ((\<forall>y. 1 \<le> y \<longrightarrow> y \<le> n \<longrightarrow>
          cumulative_cash_flow (cash_flow_series (c * (1 - dp)) revenue p a dt tr n) y < 0) \<longrightarrow>
       Payback_Period m = n + 1)"
proof -
  obtain a where a: "annual_debt_service (c * dp) di dt = Inr a"
    using debt_service_returns [OF assms(3)] by blast
  let ?rest = "map (annual_cash_flow revenue p a dt tr) [1..n]"
  have series: "cash_flow_series (c * (1 - dp)) revenue p a dt tr n = (- (c * (1 - dp))) # ?rest"
    by (rule cash_flow_series_Cons)
  have len: "int (length ?rest) = max 0 n" by simp
  have "?rest \<noteq> [] \<or> - (c * (1 - dp)) < 0"
  proof (cases "1 \<le> n")
    case True
    then have "length ?rest \<noteq> 0" by simp
    then show ?thesis by fastforce
  next
    case False
    then show ?thesis using assms(5) by simp
  qed
  from payback_of_first [OF this len] obtain pb where
    pb: "payback_of ((- (c * (1 - dp))) # ?rest) n = Inr pb" and
    first: "\<forall>y. 1 \<le> y \<longrightarrow> y \<le> n \<longrightarrow> 0 \<le> cumulative_cash_flow ((- (c * (1 - dp))) # ?rest) y \<longrightarrow>
           (\<forall>k. 1 \<le> k \<longrightarrow> k < y \<longrightarrow> cumulative_cash_flow ((- (c * (1 - dp))) # ?rest) k < 0) \<longrightarrow> pb = y" and
    never: "(\<forall>y. 1 \<le> y \<longrightarrow> y \<le> n \<longrightarrow> cumulative_cash_flow ((- (c * (1 - dp))) # ?rest) y < 0) \<longrightarrow> pb = n + 1"
    by blast
  define m where "m =
     \<lparr>NPV = npv_spec (cash_flow_series (c * (1 - dp)) revenue p a dt tr n) dr,
      IRR = irr_spec (cash_flow_series (c * (1 - dp)) revenue p a dt tr n),
      Payback_Period = pb,
      Debt_Service_Coverage_Ratio = (if a > 0 then Fin ((revenue - p) / a) else PosInf),
      Equity_Return = irr_spec (cash_flow_series (c * (1 - dp)) revenue p a dt tr n)\<rparr>"
  have ret: "calculate_financial_metrics capex opex revenue n dr dp di dt tr = Inr m"
    unfolding m_def
    using assms(1,2) a assms(4) pb [folded series] by (rule financial_metrics_unfold)
  have pbm: "Payback_Period m = pb" by (simp add: m_def)
  show ?thesis
    using a ret first [folded series pbm] never [folded series pbm] by blast
qed

lemma upto_1_3: "[1..3::int] = [1, 2, 3]"
  by (simp add: upto_rec1)

theorem payback_period_first_nonnegative_year_witness:
  "(\<exists>m. calculate_financial_metrics [(''Total CAPEX'', 100)] [(''Total OPEX'', 0)]
          60 3 0.08 0 0.05 10 0 = Inr m \<and> Payback_Period m = 2) \<and>
   (\<exists>m. calculate_financial_metrics [(''Total CAPEX'', 100)] [(''Total OPEX'', 0)]
          10 3 0.08 0 0.05 10 0 = Inr m \<and> Payback_Period m = 4)"
proof -
  have k1: "getitem [(''Total CAPEX'', 100)] ''Total CAPEX'' = Inr 100"
    and k2: "getitem [(''Total OPEX'', 0)] ''Total OPEX'' = Inr 0"
    by (simp_all add: getitem_def)
  have h: "(10::int) \<noteq> 0" "(0.08::real) \<noteq> - 1" "1 \<le> (3::int) \<or> (0::real) < 100 * (1 - 0)"
    by simp_all
  have ads: "annual_debt_service (100 * 0) 0.05 10 = Inr a \<Longrightarrow> a = 0" for a
    by (simp add: annual_debt_service_def py_pow_def py_div_def power_divide)
  have s60: "cash_flow_series (100 * (1 - 0)) 60 0 0 10 0 3 = [- 100, 60, 60, 60]"
    by (simp add: cash_flow_series_def annual_cash_flow_def upto_1_3)
  have s10: "cash_flow_series (100 * (1 - 0)) 10 0 0 10 0 3 = [- 100, 10, 10, 10]"
    by (simp add: cash_flow_series_def annual_cash_flow_def upto_1_3)
  have c60: "cumulative_cash_flow [- 100, 60, 60, 60] 1 = - 40"
    "cumulative_cash_flow [- 100, 60, 60, 60] 2 = 20"
    by (simp_all add: cumulative_cash_flow_def)
  have c10: "cumulative_cash_flow [- 100, 10, 10, 10] y < 0" for y
    by (cases "nat y" rule: nat.exhaust; cases "nat y - 1"; cases "nat y - 2"; cases "nat y - 3")
       (auto simp add: cumulative_cash_flow_def)
  from payback_period_first_nonnegative_year [OF k1 k2 h, where di = "0.05" and revenue = 60 and tr = 0]
  obtain m a where m: "annual_debt_service (100 * 0) 0.05 10 = Inr a"
    "calculate_financial_metrics [(''Total CAPEX'', 100)] [(''Total OPEX'', 0)]
          60 3 0.08 0 0.05 10 0 = Inr m"
    "\<forall>y. 1 \<le> y \<longrightarrow> y \<le> 3 \<longrightarrow>
         0 \<le> cumulative_cash_flow (cash_flow_series (100 * (1 - 0)) 60 0 a 10 0 3) y \<longrightarrow>
         (\<forall>k. 1 \<le> k \<longrightarrow> k < y \<longrightarrow>
            cumulative_cash_flow (cash_flow_series (100 * (1 - 0)) 60 0 a 10 0 3) k < 0) \<longrightarrow>
         Payback_Period m = y"
    by blast
  have a0: "a = 0" using m(1) by (rule ads)
  have "\<forall>k::int. 1 \<le> k \<longrightarrow> k < 2 \<longrightarrow> cumulative_cash_flow [- 100, 60, 60, 60] k < 0"
  proof (intro allI impI)
    fix k :: int assume "1 \<le> k" "k < 2"
    then have "k = 1" by simp
    then show "cumulative_cash_flow [- 100, 60, 60, 60] k < 0" by (simp add: c60)
  qed
  with m(3) [unfolded a0 s60] have "Payback_Period m = 2" by (simp add: c60)
  with m(2) have first: "\<exists>m. calculate_financial_metrics [(''Total CAPEX'', 100)]
      [(''Total OPEX'', 0)] 60 3 0.08 0 0.05 10 0 = Inr m \<and> Payback_Period m = 2" by blast
  from payback_period_first_nonnegative_year [OF k1 k2 h, where di = "0.05" and revenue = 10 and tr = 0]
  obtain m' a' where m': "annual_debt_service (100 * 0) 0.05 10 = Inr a'"
    "calculate_financial_metrics [(''Total CAPEX'', 100)] [(''Total OPEX'', 0)]
          10 3 0.08 0 0.05 10 0 = Inr m'"
    "(\<forall>y. 1 \<le> y \<longrightarrow> y \<le> 3 \<longrightarrow>
          cumulative_cash_flow (cash_flow_series (100 * (1 - 0)) 10 0 a' 10 0 3) y < 0) \<longrightarrow>
       Payback_Period m' = 3 + 1"
    by blast
  have a0': "a' = 0" using m'(1) by (rule ads)
  from m'(3) [unfolded a0' s10] have "Payback_Period m' = 4" by (simp add: c10)
  with m'(2) have "\<exists>m. calculate_financial_metrics [(''Total CAPEX'', 100)]
      [(''Total OPEX'', 0)] 10 3 0.08 0 0.05 10 0 = Inr m \<and> Payback_Period m = 4" by blast
  with first show ?thesis by blast
qed

text \<open>
  C5. Whenever \<open>calculate_financial_metrics\<close> returns, the rate of return it reports is
  the result of the search of the specification on its cash flow series: the search that
  starts at the rate 0.10 with the step 0.05, runs at most 20 iterations, halves the step
  whenever the sign of the net present value flips, and stops as soon as the absolute net
  present value at the current rate is below 1.
\<close>

theorem irr_is_step_halving_search:
  assumes "calculate_financial_metrics capex opex revenue n dr dp di dt tr = Inr m"
  shows "\<exists>c p a. getitem capex ''Total CAPEX'' = Inr c \<and> getitem opex ''Total OPEX'' = Inr p \<and>
           annual_debt_service (c * dp) di dt = Inr a \<and>
           IRR m = irr_spec (cash_flow_series (c * (1 - dp)) revenue p a dt tr n)"
proof -
  from assms obtain c where c: "getitem capex ''Total CAPEX'' = Inr c"
    by (cases "getitem capex ''Total CAPEX''") (simp_all add: calculate_financial_metrics_def)
  from assms c obtain p where p: "getitem opex ''Total OPEX'' = Inr p"
    by (cases "getitem opex ''Total OPEX''") (simp_all add: calculate_financial_metrics_def)
  from assms c p obtain a where a: "annual_debt_service (c * dp) di dt = Inr a"
    by (cases "annual_debt_service (c * dp) di dt")
       (simp_all add: calculate_financial_metrics_def Let_def)
  let ?cfs = "cash_flow_series (c * (1 - dp)) revenue p a dt tr n"
  have irr: "irr_loop ?cfs 20 0.1 0.05 1 = Inr (irr_spec ?cfs)"
    by (rule irr_loop_spec [OF cash_flow_series_nonempty])
  have "IRR m = irr_spec ?cfs"
    using assms unfolding calculate_financial_metrics_def Let_def
    by (simp only: c p a irr sum.case split: sum.splits) auto
  then show ?thesis using c p a by blast
qed

lemma upto_1_1: "[1..1::int] = [1]"
  by (simp add: upto_rec1)

theorem irr_is_step_halving_search_witness:
  "\<exists>m. calculate_financial_metrics [(''Total CAPEX'', 100)] [(''Total OPEX'', 0)]
          105 1 0.08 0 0.05 10 0 = Inr m \<and> IRR m = irr_spec [- 100, 105] \<and>
        irr_spec [- 100, 105] = 0.05"
proof -
  have k1: "getitem [(''Total CAPEX'', 100)] ''Total CAPEX'' = Inr 100"
    and k2: "getitem [(''Total OPEX'', 0)] ''Total OPEX'' = Inr 0"
    by (simp_all add: getitem_def)
  have ads: "annual_debt_service (100 * 0) 0.05 10 = Inr 0"
    by (simp add: annual_debt_service_def py_pow_def py_div_def power_divide)
  have s: "cash_flow_series (100 * (1 - 0)) 105 0 0 10 0 1 = [- 100, 105]"
    by (simp add: cash_flow_series_def annual_cash_flow_def upto_1_1)
  have pb: "payback_of [- 100, 105] 1 = Inr 1"
    by (simp add: payback_of_def)
  have "\<exists>m. calculate_financial_metrics [(''Total CAPEX'', 100)] [(''Total OPEX'', 0)]
          105 1 0.08 0 0.05 10 0 = Inr m"
    using financial_metrics_unfold [OF k1 k2 ads _ pb [folded s], of "0.08"] by simp
  then obtain m where m: "calculate_financial_metrics [(''Total CAPEX'', 100)]
       [(''Total OPEX'', 0)] 105 1 0.08 0 0.05 10 0 = Inr m" by blast
  from irr_is_step_halving_search [OF m] obtain c p a where
    "getitem [(''Total CAPEX'', 100)] ''Total CAPEX'' = Inr c"
    "getitem [(''Total OPEX'', 0)] ''Total OPEX'' = Inr p"
    "annual_debt_service (c * 0) 0.05 10 = Inr a"
    "IRR m = irr_spec (cash_flow_series (c * (1 - 0)) 105 p a 10 0 1)" by blast
  then have "IRR m = irr_spec [- 100, 105]"
    using k1 k2 ads s by simp
  moreover have "irr_spec [- 100, 105] = 0.05"
    by (simp add: irr_spec_def npv_spec_def eval_nat_numeral Let_def)
  ultimately show ?thesis using m by blast
qed

end
